theory Spec2Isabelle
  imports Complex_Main
begin

section \<open>JavaScript values used by the components\<close>

text \<open>
  A JavaScript number is modelled as \<open>jsnum\<close>: not-a-number, the two infinities, or a
  finite value (a rational; the sign of zero is not kept, no operation of the components
  distinguishes it). Comparisons follow IEEE 754: every comparison with \<open>NaN\<close> is false.
\<close>

datatype jsnum = NaN | NegInfinity | Finite rat | PosInfinity

fun js_le :: "jsnum \<Rightarrow> jsnum \<Rightarrow> bool" where
  "js_le NaN b = False"
| "js_le a NaN = False"
| "js_le NegInfinity b = True"
| "js_le a PosInfinity = True"
| "js_le (Finite a) (Finite b) = (a \<le> b)"
| "js_le a b = False"

definition js_ge :: "jsnum \<Rightarrow> jsnum \<Rightarrow> bool" where
  "js_ge a b = js_le b a"

text \<open>
  The builtins \<open>parseFloat\<close> and the number-to-string conversion of a template literal
  round to and print binary64 values. The components are therefore parametrised by them:
  \<open>pf\<close> stands for \<open>parseFloat\<close> and \<open>ns\<close> for the conversion \<open>`${x}`\<close>, and every
  theorem below holds for all \<open>pf\<close> and \<open>ns\<close>. The two functions \<open>parseDecimal\<close> and
  \<open>showDecimal\<close> are exact decimal instances, used to run the components on examples:
  they agree with the builtins on short decimals such as \<open>13.05\<close>.
\<close>

definition isDigit :: "char \<Rightarrow> bool" where
  "isDigit c = (c \<in> set ''0123456789'')"

definition digitVal :: "char \<Rightarrow> nat" where
  "digitVal c = of_char c - 48"

definition digitsVal :: "string \<Rightarrow> nat" where
  "digitsVal ds = foldl (\<lambda>a c. 10 * a + digitVal c) 0 ds"

text \<open>\<open>\s\<close> of a JavaScript regular expression, on 8-bit characters: tab, line feed,
  vertical tab, form feed, carriage return, space and no-break space.\<close>

definition isSpace :: "char \<Rightarrow> bool" where
  "isSpace c = (of_char c \<in> set [9, 10, 11, 12, 13, 32, 160 :: nat])"

definition parseDecimal :: "string \<Rightarrow> jsnum" where
  "parseDecimal s =
     (let t = dropWhile isSpace s;
          neg = (t \<noteq> [] \<and> hd t = CHR ''-'');
          u = (if t \<noteq> [] \<and> (hd t = CHR ''-'' \<or> hd t = CHR ''+'') then tl t else t);
          ip = takeWhile isDigit u;
          r = dropWhile isDigit u;
          fp = (if r \<noteq> [] \<and> hd r = CHR ''.'' then takeWhile isDigit (tl r) else [])
      in if ip = [] \<and> fp = [] then NaN
         else let m = of_nat (digitsVal ip) + of_nat (digitsVal fp) / 10 ^ length fp
              in Finite (if neg then - m else m))"

fun showNat :: "nat \<Rightarrow> string" where
  "showNat n = (if n < 10 then [char_of (48 + n)] else showNat (n div 10) @ [char_of (48 + n mod 10)])"

fun showFrac :: "nat \<Rightarrow> rat \<Rightarrow> string" where
  "showFrac 0 r = []"
| "showFrac (Suc k) r =
     (if r = 0 then []
      else let d = nat \<lfloor>r * 10\<rfloor> in char_of (48 + d) # showFrac k (r * 10 - of_nat d))"

definition showDecimal :: "jsnum \<Rightarrow> string" where
  "showDecimal x =
     (case x of
        NaN \<Rightarrow> ''NaN''
      | NegInfinity \<Rightarrow> ''-Infinity''
      | PosInfinity \<Rightarrow> ''Infinity''
      | Finite r \<Rightarrow>
          (let a = \<bar>r\<bar>; n = nat \<lfloor>a\<rfloor>; f = a - of_nat n
           in (if r < 0 then ''-'' else []) @ showNat n @
              (if f = 0 then [] else CHR ''.'' # showFrac 17 f)))"

section \<open>The coordinate pattern\<close>

text \<open>
  The search effect of \<open>LocationInput\<close> tests the query against
  \<^verbatim>\<open>/^(-?\d+\.?\d*),\s*(-?\d+\.?\d*)$/\<close>.
  \<open>numberToken s\<close> says that the whole of \<open>s\<close> matches one group \<^verbatim>\<open>-?\d+\.?\d*\<close>: an
  optional minus, at least one digit, an optional dot, digits. \<open>coordMatch q\<close> returns
  the two captured groups. A group holds no comma, so the comma of the pattern is the
  first comma of \<open>q\<close>; a group starts with a minus or a digit, so \<^verbatim>\<open>\s*\<close> takes all the
  white space after the comma; the second group runs to the end of \<open>q\<close>.
\<close>

definition numberToken :: "string \<Rightarrow> bool" where
  "numberToken s =
     (let s1 = (case s of [] \<Rightarrow> [] | c # r \<Rightarrow> if c = CHR ''-'' then r else s);
          ds = takeWhile isDigit s1;
          s2 = dropWhile isDigit s1;
          s3 = (case s2 of [] \<Rightarrow> [] | c # r \<Rightarrow> if c = CHR ''.'' then r else s2)
      in ds \<noteq> [] \<and> list_all isDigit s3)"

definition coordMatch :: "string \<Rightarrow> (string \<times> string) option" where
  "coordMatch q =
     (let g1 = takeWhile (\<lambda>c. c \<noteq> CHR '','') q;
          r = dropWhile (\<lambda>c. c \<noteq> CHR '','') q
      in case r of
           [] \<Rightarrow> None
         | comma # r1 \<Rightarrow>
             (let g2 = dropWhile isSpace r1
              in if numberToken g1 \<and> numberToken g2 then Some (g1, g2) else None))"

section \<open>LocationInput\<close>

text \<open>
  \<open>Location\<close> of \<open>types/api\<close> (\<open>address\<close> is optional) and \<open>SearchResult\<close> of the
  component, whose \<open>lat\<close> and \<open>lon\<close> are strings; they are named \<open>res_lat\<close> and
  \<open>res_lon\<close> here, apart from the fields of \<open>Location\<close>.
\<close>

record location =
  lat :: jsnum
  lng :: jsnum
  address :: "string option"

record searchResult =
  display_name :: string
  res_lat :: string
  res_lon :: string

text \<open>
  The state of one mounted \<open>LocationInput\<close>, wired as \<open>App\<close> wires it (\<open>onChange\<close> is the
  setter of the parent's state, which comes back as the prop \<open>value\<close>):
  \<^item> \<open>valueProp\<close> is the prop \<open>value\<close>; \<open>valueStamp\<close> stands for the identity of the object
    it holds (React compares the dependencies of an effect with \<open>Object.is\<close>, and every
    \<open>onChange\<close> with a location passes a new object);
  \<^item> \<open>query\<close>, \<open>results\<close>, \<open>isSearching\<close>, \<open>showResults\<close> are the four \<open>useState\<close> cells;
  \<^item> \<open>searchTimeout\<close> is \<open>searchTimeoutRef\<close>: the pending timeout, with the query its
    callback has captured, or \<open>None\<close> when none is pending;
  \<^item> \<open>pending\<close> lists the callbacks suspended at \<open>await searchLocation(query)\<close>, each with
    its captured query, oldest first;
  \<^item> \<open>issued\<close> logs every call of \<open>geocodingService.searchLocation\<close> and \<open>emitted\<close> every
    call of \<open>onChange\<close>.
\<close>

record li_state =
  valueProp :: "location option"
  valueStamp :: nat
  query :: string
  results :: "searchResult list"
  isSearching :: bool
  showResults :: bool
  searchTimeout :: "string option"
  pending :: "string list"
  issued :: "string list"
  emitted :: "location option list"

definition li_init :: li_state where
  "li_init = \<lparr>valueProp = None, valueStamp = 0, query = [], results = [], isSearching = False,
     showResults = False, searchTimeout = None, pending = [], issued = [], emitted = []\<rparr>"

text \<open>\<open>onChange(l)\<close>, that is \<open>setStartLocation(l)\<close> or \<open>setEndLocation(l)\<close> of the parent.\<close>

definition onChange :: "location option \<Rightarrow> li_state \<Rightarrow> li_state" where
  "onChange l st =
     st\<lparr>valueProp := l,
        valueStamp := (if l = None \<and> valueProp st = None then valueStamp st else Suc (valueStamp st)),
        emitted := emitted st @ [l]\<rparr>"

text \<open>The text the first effect gives to \<open>setQuery\<close>: \<open>value?.address\<close> when it is truthy
  (present and not empty), else \<open>`${value.lat}, ${value.lng}`\<close>, else the empty string.\<close>

definition displayText :: "(jsnum \<Rightarrow> string) \<Rightarrow> location option \<Rightarrow> string" where
  "displayText ns v =
     (case v of
        None \<Rightarrow> []
      | Some l \<Rightarrow>
          (case address l of
             Some a \<Rightarrow> if a \<noteq> [] then a else ns (lat l) @ '', '' @ ns (lng l)
           | None \<Rightarrow> ns (lat l) @ '', '' @ ns (lng l)))"

text \<open>The second effect, run when \<open>query\<close> has changed: the pending timeout is cleared;
  a query longer than 2 starts a new one, a shorter one clears the results.\<close>

definition searchEffect :: "li_state \<Rightarrow> li_state" where
  "searchEffect st =
     (let st1 = st\<lparr>searchTimeout := None\<rparr>
      in if length (query st1) > 2 then st1\<lparr>searchTimeout := Some (query st1)\<rparr>
         else st1\<lparr>results := [], showResults := False\<rparr>)"

text \<open>
  What React does after an event handler has updated the state from \<open>old\<close> to \<open>st\<close>: it
  renders, then runs the effects whose dependencies changed. The first effect (on \<open>value\<close>)
  queues \<open>setQuery(displayText value)\<close>; the second (on \<open>query\<close>) runs on the query of this
  render; the queued update then renders again, and the second effect runs once more if
  that changed the query.
\<close>

definition rerender :: "(jsnum \<Rightarrow> string) \<Rightarrow> li_state \<Rightarrow> li_state \<Rightarrow> li_state" where
  "rerender ns old st =
     (let st1 = (if query st \<noteq> query old then searchEffect st else st)
      in if valueStamp st \<noteq> valueStamp old then
           (let q = displayText ns (valueProp st)
            in if q \<noteq> query st1 then searchEffect (st1\<lparr>query := q\<rparr>) else st1)
         else st1)"

text \<open>The coordinate test of the timeout's callback: the pattern, then the ranges.\<close>

definition coordinates :: "(string \<Rightarrow> jsnum) \<Rightarrow> string \<Rightarrow> (jsnum \<times> jsnum) option" where
  "coordinates pf q =
     (case coordMatch q of
        None \<Rightarrow> None
      | Some (g1, g2) \<Rightarrow>
          (let la = pf g1; lo = pf g2
           in if js_ge la (Finite (- 90)) \<and> js_le la (Finite 90) \<and>
                 js_ge lo (Finite (- 180)) \<and> js_le lo (Finite 180)
              then Some (la, lo) else None))"

text \<open>
  The callback of the timeout, for the query \<open>q\<close> it captured, up to its \<open>return\<close> or its
  \<open>await\<close>: on coordinates \<open>onChange\<close>, \<open>setResults([])\<close>, \<open>setShowResults(false)\<close> and the
  \<open>finally\<close> block; otherwise the call of \<open>searchLocation(q)\<close>, whose answer is awaited.
\<close>

definition timeoutCallback ::
  "(string \<Rightarrow> jsnum) \<Rightarrow> (jsnum \<Rightarrow> string) \<Rightarrow> string \<Rightarrow> li_state \<Rightarrow> li_state" where
  "timeoutCallback pf ns q st =
     (let st1 = st\<lparr>isSearching := True\<rparr>
      in case coordinates pf q of
           Some (la, lo) \<Rightarrow>
             (onChange (Some \<lparr>lat = la, lng = lo, address = Some (ns la @ '', '' @ ns lo)\<rparr>) st1)
               \<lparr>results := [], showResults := False, isSearching := False\<rparr>
         | None \<Rightarrow> st1\<lparr>pending := pending st1 @ [q], issued := issued st1 @ [q]\<rparr>)"

text \<open>\<open>geocodingService.searchLocation\<close>: the provider's answer (\<open>None\<close> when the request
  throws) becomes a list; an error becomes the empty list.\<close>

definition searchLocation :: "searchResult list option \<Rightarrow> searchResult list" where
  "searchLocation answer = (case answer of Some rs \<Rightarrow> rs | None \<Rightarrow> [])"

text \<open>The rest of the callback, when the awaited search number \<open>i\<close> of \<open>pending\<close> answers:
  \<open>setResults\<close>, \<open>setShowResults\<close> and the \<open>finally\<close> block. No test of the query stands
  between the \<open>await\<close> and \<open>setResults\<close>.\<close>

definition searchResolved :: "nat \<Rightarrow> searchResult list option \<Rightarrow> li_state \<Rightarrow> li_state" where
  "searchResolved i answer st =
     (if i < length (pending st) then
        (let searchResults = searchLocation answer
         in st\<lparr>pending := take i (pending st) @ drop (Suc i) (pending st),
               results := searchResults,
               showResults := (length searchResults > 0),
               isSearching := False\<rparr>)
      else st)"

definition handleSelectResult :: "(string \<Rightarrow> jsnum) \<Rightarrow> searchResult \<Rightarrow> li_state \<Rightarrow> li_state" where
  "handleSelectResult pf r st =
     (onChange (Some \<lparr>lat = pf (res_lat r), lng = pf (res_lon r), address = Some (display_name r)\<rparr>) st)
       \<lparr>query := display_name r, showResults := False\<rparr>"

definition handleClear :: "li_state \<Rightarrow> li_state" where
  "handleClear st = (onChange None (st\<lparr>query := []\<rparr>))\<lparr>results := [], showResults := False\<rparr>"

text \<open>
  The events of the component: a keystroke (\<open>setQuery(e.target.value)\<close>), the timeout
  firing, the answer of an awaited search, a click on a result, on the clear button or
  outside the component, and the parent replacing \<open>value\<close> by another object.
\<close>

datatype li_event =
    Type string
  | TimerFire
  | SearchAnswer nat "searchResult list option"
  | SelectResult searchResult
  | Clear
  | ClickOutside
  | ExternalValue "location option"

definition li_step ::
  "(string \<Rightarrow> jsnum) \<Rightarrow> (jsnum \<Rightarrow> string) \<Rightarrow> li_event \<Rightarrow> li_state \<Rightarrow> li_state" where
  "li_step pf ns ev st =
     (case ev of
        Type s \<Rightarrow> rerender ns st (st\<lparr>query := s\<rparr>)
      | TimerFire \<Rightarrow>
          (case searchTimeout st of
             None \<Rightarrow> st
           | Some q \<Rightarrow> rerender ns st (timeoutCallback pf ns q (st\<lparr>searchTimeout := None\<rparr>)))
      | SearchAnswer i answer \<Rightarrow> searchResolved i answer st
      | SelectResult r \<Rightarrow> rerender ns st (handleSelectResult pf r st)
      | Clear \<Rightarrow> rerender ns st (handleClear st)
      | ClickOutside \<Rightarrow> st\<lparr>showResults := False\<rparr>
      | ExternalValue v \<Rightarrow>
          rerender ns st (st\<lparr>valueProp := v,
            valueStamp := (if v = None \<and> valueProp st = None then valueStamp st else Suc (valueStamp st))\<rparr>))"

fun li_run ::
  "(string \<Rightarrow> jsnum) \<Rightarrow> (jsnum \<Rightarrow> string) \<Rightarrow> li_event list \<Rightarrow> li_state \<Rightarrow> li_state" where
  "li_run pf ns [] st = st"
| "li_run pf ns (ev # evs) st = li_run pf ns evs (li_step pf ns ev st)"

section \<open>App\<close>

text \<open>
  \<open>RouteOption\<close> and \<open>EcoRouteResponse\<close> of \<open>types/api\<close>. \<open>App\<close> stores, compares and passes
  on routes and responses; of their fields it reads \<open>mode\<close>, \<open>route_options\<close> and
  \<open>recommended_route\<close>. The fields that are only displayed are kept as one component of
  any type: \<open>route_payload\<close> (\<open>route_details\<close>, \<open>eco_analysis\<close>, \<open>estimated_emissions\<close>) and
  \<open>response_rest\<close> (\<open>start_location\<close>, \<open>end_location\<close>, \<open>environmental_conditions\<close>,
  \<open>summary\<close>).
\<close>

record 'a RouteOption =
  mode :: string
  route_payload :: 'a

record ('a, 'b) EcoRouteResponse =
  route_options :: "'a RouteOption list"
  recommended_route :: "'a RouteOption option"
  response_rest :: 'b

text \<open>What \<open>catch (err)\<close> reads of a rejected request: \<open>err.response?.data?.detail\<close>. A
  transport error or a timeout has no \<open>response\<close>.\<close>

record errorBody =
  detail :: "string option"

record errorResponse =
  data :: "errorBody option"

record planError =
  response :: "errorResponse option"

text \<open>The parameters \<open>apiService.planEcoRoute\<close> sends to \<open>/eco/plan\<close>.\<close>

record planRequest =
  req_start :: string
  req_end :: string
  req_modes :: string

fun joinComma :: "string list \<Rightarrow> string" where
  "joinComma [] = []"
| "joinComma [m] = m"
| "joinComma (m # ms) = m @ '','' @ joinComma ms"

definition planEcoRoute :: "string \<Rightarrow> string \<Rightarrow> string list \<Rightarrow> planRequest" where
  "planEcoRoute s e modes = \<lparr>req_start = s, req_end = e, req_modes = joinComma modes\<rparr>"

text \<open>The state of \<open>App\<close>: its seven \<open>useState\<close> cells, and \<open>inflight\<close>, the calls of
  \<open>handlePlanRoute\<close> suspended at \<open>await apiService.planEcoRoute(...)\<close>, oldest first.\<close>

record ('a, 'b) app_state =
  startLocation :: "location option"
  endLocation :: "location option"
  selectedModes :: "string list"
  routeData :: "('a, 'b) EcoRouteResponse option"
  selectedRoute :: "'a RouteOption option"
  isLoading :: bool
  error :: "string option"
  inflight :: "planRequest list"

definition app_init :: "('a, 'b) app_state" where
  "app_init = \<lparr>startLocation = None, endLocation = None, selectedModes = [''cycling-regular''],
     routeData = None, selectedRoute = None, isLoading = False, error = None, inflight = []\<rparr>"

text \<open>\<open>handlePlanRoute\<close> up to its \<open>await\<close>: the validation, then \<open>setIsLoading(true)\<close>,
  \<open>setError(null)\<close> and the request.\<close>

definition handlePlanRoute :: "(jsnum \<Rightarrow> string) \<Rightarrow> ('a, 'b) app_state \<Rightarrow> ('a, 'b) app_state" where
  "handlePlanRoute ns st =
     (case (startLocation st, endLocation st) of
        (Some s, Some e) \<Rightarrow>
          if length (selectedModes st) = 0
          then st\<lparr>error := Some ''Please fill in all required fields''\<rparr>
          else (let startCoords = ns (lng s) @ '','' @ ns (lat s);
                    endCoords = ns (lng e) @ '','' @ ns (lat e)
                in st\<lparr>isLoading := True, error := None,
                      inflight := inflight st @ [planEcoRoute startCoords endCoords (selectedModes st)]\<rparr>)
      | _ \<Rightarrow> st\<lparr>error := Some ''Please fill in all required fields''\<rparr>)"

text \<open>\<open>err.response?.data?.detail || 'Failed to plan route. Please try again.'\<close>: the
  detail when it is truthy (present and not empty), else the fallback.\<close>

definition errorMessage :: "planError \<Rightarrow> string" where
  "errorMessage err =
     (case response err of
        None \<Rightarrow> ''Failed to plan route. Please try again.''
      | Some r \<Rightarrow>
          (case data r of
             None \<Rightarrow> ''Failed to plan route. Please try again.''
           | Some b \<Rightarrow>
               (case detail b of
                  None \<Rightarrow> ''Failed to plan route. Please try again.''
                | Some d \<Rightarrow> if d \<noteq> [] then d else ''Failed to plan route. Please try again.'')))"

text \<open>The rest of \<open>handlePlanRoute\<close>, when the awaited request number \<open>i\<close> of \<open>inflight\<close>
  answers: the two setters of the \<open>try\<close> block, or the \<open>catch\<close> block on \<open>Inl err\<close>; then
  \<open>finally\<close>. No test of the call's age stands between the \<open>await\<close> and \<open>setRouteData\<close>.\<close>

definition planResolved ::
  "nat \<Rightarrow> planError + ('a, 'b) EcoRouteResponse \<Rightarrow> ('a, 'b) app_state \<Rightarrow> ('a, 'b) app_state" where
  "planResolved i answer st =
     (if i < length (inflight st) then
        (let st1 = st\<lparr>inflight := take i (inflight st) @ drop (Suc i) (inflight st)\<rparr>
         in case answer of
              Inr resp \<Rightarrow>
                st1\<lparr>routeData := Some resp, selectedRoute := recommended_route resp,
                    isLoading := False\<rparr>
            | Inl err \<Rightarrow>
                st1\<lparr>error := Some (errorMessage err), routeData := None, selectedRoute := None,
                    isLoading := False\<rparr>)
      else st)"

definition handleRouteSelect :: "'a RouteOption \<Rightarrow> ('a, 'b) app_state \<Rightarrow> ('a, 'b) app_state" where
  "handleRouteSelect route st = st\<lparr>selectedRoute := Some route\<rparr>"

definition handleRetry :: "(jsnum \<Rightarrow> string) \<Rightarrow> ('a, 'b) app_state \<Rightarrow> ('a, 'b) app_state" where
  "handleRetry ns st = handlePlanRoute ns (st\<lparr>error := None\<rparr>)"

text \<open>
  The events of \<open>App\<close>: the three setters given to the inputs, the plan button, the retry
  button of the error message, a click on a route (\<open>onRouteSelect\<close> of the map, and the
  comparison cards, which call \<open>setSelectedRoute\<close> the same way), and the answer of an
  awaited request.
\<close>

datatype ('a, 'b) app_event =
    SetStart "location option"
  | SetEnd "location option"
  | SetModes "string list"
  | ClickPlan
  | ClickRetry
  | SelectRoute "'a RouteOption"
  | PlanAnswer nat "planError + ('a, 'b) EcoRouteResponse"

definition app_step ::
  "(jsnum \<Rightarrow> string) \<Rightarrow> ('a, 'b) app_event \<Rightarrow> ('a, 'b) app_state \<Rightarrow> ('a, 'b) app_state" where
  "app_step ns ev st =
     (case ev of
        SetStart l \<Rightarrow> st\<lparr>startLocation := l\<rparr>
      | SetEnd l \<Rightarrow> st\<lparr>endLocation := l\<rparr>
      | SetModes ms \<Rightarrow> st\<lparr>selectedModes := ms\<rparr>
      | ClickPlan \<Rightarrow> handlePlanRoute ns st
      | ClickRetry \<Rightarrow> handleRetry ns st
      | SelectRoute route \<Rightarrow> handleRouteSelect route st
      | PlanAnswer i answer \<Rightarrow> planResolved i answer st)"

fun app_run ::
  "(jsnum \<Rightarrow> string) \<Rightarrow> ('a, 'b) app_event list \<Rightarrow> ('a, 'b) app_state \<Rightarrow> ('a, 'b) app_state" where
  "app_run ns [] st = st"
| "app_run ns (ev # evs) st = app_run ns evs (app_step ns ev st)"

text \<open>
  What the rendered page offers in a state. The plan button carries
  \<open>disabled={!startLocation || !endLocation || selectedModes.length === 0 || isLoading}\<close>;
  the retry button is rendered under \<open>error &&\<close>; the route buttons are rendered from
  \<open>routeData.route_options\<close>; an answer comes for a request that is in flight.
\<close>

definition offered :: "('a, 'b) app_event \<Rightarrow> ('a, 'b) app_state \<Rightarrow> bool" where
  "offered ev st =
     (case ev of
        ClickPlan \<Rightarrow>
          \<not> (startLocation st = None \<or> endLocation st = None \<or> length (selectedModes st) = 0 \<or>
             isLoading st)
      | ClickRetry \<Rightarrow> (case error st of None \<Rightarrow> False | Some m \<Rightarrow> m \<noteq> [])
      | SelectRoute route \<Rightarrow>
          (case routeData st of None \<Rightarrow> False | Some d \<Rightarrow> route \<in> set (route_options d))
      | PlanAnswer i answer \<Rightarrow> i < length (inflight st)
      | _ \<Rightarrow> True)"

fun ui_trace ::
  "(jsnum \<Rightarrow> string) \<Rightarrow> ('a, 'b) app_event list \<Rightarrow> ('a, 'b) app_state \<Rightarrow> bool" where
  "ui_trace ns [] st = True"
| "ui_trace ns (ev # evs) st = (offered ev st \<and> ui_trace ns evs (app_step ns ev st))"

text \<open>A successful answer whose recommended route, when it has one, is one of its route
  options; and an event that is not a successful answer without this property.\<close>

definition recommends_option :: "('a, 'b) EcoRouteResponse \<Rightarrow> bool" where
  "recommends_option resp =
     (case recommended_route resp of None \<Rightarrow> True | Some r \<Rightarrow> r \<in> set (route_options resp))"

definition answer_ok :: "('a, 'b) app_event \<Rightarrow> bool" where
  "answer_ok ev =
     (case ev of PlanAnswer i (Inr resp) \<Rightarrow> recommends_option resp | _ \<Rightarrow> True)"

definition selection_valid :: "('a, 'b) app_state \<Rightarrow> bool" where
  "selection_valid st =
     (case selectedRoute st of
        None \<Rightarrow> True
      | Some r \<Rightarrow> (case routeData st of None \<Rightarrow> False | Some d \<Rightarrow> r \<in> set (route_options d)))"

definition changes_selection :: "('a, 'b) app_event \<Rightarrow> bool" where
  "changes_selection ev =
     (case ev of SelectRoute route \<Rightarrow> True | PlanAnswer i answer \<Rightarrow> True | _ \<Rightarrow> False)"

text \<open>At most one request in flight, and then the page is loading and shows no error.\<close>

definition single_flight :: "('a, 'b) app_state \<Rightarrow> bool" where
  "single_flight st =
     (case inflight st of [] \<Rightarrow> True | [r] \<Rightarrow> isLoading st \<and> error st = None | _ \<Rightarrow> False)"

text \<open>A pending timeout holds the current query, and that query is longer than 2.\<close>

definition timer_current :: "li_state \<Rightarrow> bool" where
  "timer_current st =
     (case searchTimeout st of None \<Rightarrow> True | Some q \<Rightarrow> q = query st \<and> 2 < length q)"

section \<open>Example values\<close>

definition chennai :: searchResult where
  "chennai = \<lparr>display_name = ''Chennai, India'', res_lat = ''13.0827'', res_lon = ''80.2707''\<rparr>"

definition cheyyar :: searchResult where
  "cheyyar = \<lparr>display_name = ''Cheyyar, India'', res_lat = ''12.66'', res_lon = ''79.54''\<rparr>"

definition unnamedPlace :: searchResult where
  "unnamedPlace = \<lparr>display_name = [], res_lat = ''1'', res_lon = ''2''\<rparr>"

definition chennaiLocation :: location where
  "chennaiLocation =
     \<lparr>lat = Finite (130827 / 10000), lng = Finite (802707 / 10000), address = Some ''Chennai, India''\<rparr>"

definition startPoint :: location where
  "startPoint = \<lparr>lat = Finite (130827 / 10000), lng = Finite (802707 / 10000), address = None\<rparr>"

definition endPoint :: location where
  "endPoint = \<lparr>lat = Finite (130674 / 10000), lng = Finite (80243 / 1000), address = None\<rparr>"

definition cyclingRoute :: "unit RouteOption" where
  "cyclingRoute = \<lparr>mode = ''cycling-regular'', route_payload = ()\<rparr>"

definition walkingRoute :: "unit RouteOption" where
  "walkingRoute = \<lparr>mode = ''foot-walking'', route_payload = ()\<rparr>"

definition drivingRoute :: "unit RouteOption" where
  "drivingRoute = \<lparr>mode = ''driving-car'', route_payload = ()\<rparr>"

definition cyclingResponse :: "(unit, unit) EcoRouteResponse" where
  "cyclingResponse =
     \<lparr>route_options = [cyclingRoute], recommended_route = Some cyclingRoute, response_rest = ()\<rparr>"

definition drivingResponse :: "(unit, unit) EcoRouteResponse" where
  "drivingResponse =
     \<lparr>route_options = [drivingRoute], recommended_route = Some drivingRoute, response_rest = ()\<rparr>"

definition threeResponse :: "(unit, unit) EcoRouteResponse" where
  "threeResponse =
     \<lparr>route_options = [cyclingRoute, walkingRoute, drivingRoute],
      recommended_route = Some cyclingRoute, response_rest = ()\<rparr>"

definition noRouteError :: planError where
  "noRouteError = \<lparr>response = Some \<lparr>data = Some \<lparr>detail = Some ''no route found''\<rparr>\<rparr>\<rparr>"

definition emptyDetailError :: planError where
  "emptyDetailError = \<lparr>response = Some \<lparr>data = Some \<lparr>detail = Some []\<rparr>\<rparr>\<rparr>"

text \<open>\<open>App\<close> with both locations entered, and the same with a plan request in flight.\<close>

definition readyApp :: "(unit, unit) app_state" where
  "readyApp = app_run showDecimal [SetStart (Some startPoint), SetEnd (Some endPoint)] app_init"

definition loadingApp :: "(unit, unit) app_state" where
  "loadingApp = app_step showDecimal ClickPlan readyApp"

text \<open>Two calls of \<open>handlePlanRoute\<close> with no answer in between (the second after the
  modes were changed), and \<open>App\<close> after a plan that returned the cycling route alone.\<close>

definition overlappingCalls :: "(unit, unit) app_state" where
  "overlappingCalls =
     handlePlanRoute showDecimal ((handlePlanRoute showDecimal readyApp)\<lparr>selectedModes := [''driving-car'']\<rparr>)"

definition plannedCycling :: "(unit, unit) app_state" where
  "plannedCycling = app_step showDecimal (PlanAnswer 0 (Inr cyclingResponse)) loadingApp"

text \<open>States of \<open>LocationInput\<close> reached from the mounted component: the search for
  \<open>che\<close> awaiting its answer; its two results shown; coordinates typed, the timeout
  pending.\<close>

definition searchingChe :: li_state where
  "searchingChe = li_run parseDecimal showDecimal [Type ''che'', TimerFire] li_init"

definition shownChennai :: li_state where
  "shownChennai = li_run parseDecimal showDecimal
     [Type ''che'', TimerFire, SearchAnswer 0 (Some [chennai, cheyyar])] li_init"

definition typedCoordinates :: li_state where
  "typedCoordinates = li_step parseDecimal showDecimal (Type ''13.05, 80.27'') li_init"

definition typedFarCoordinates :: li_state where
  "typedFarCoordinates = li_step parseDecimal showDecimal (Type ''95, 200'') li_init"

section \<open>The coordinate pattern as a grammar\<close>

lemma numberToken_nonempty: "numberToken s \<Longrightarrow> s \<noteq> []"
  by (auto simp: numberToken_def)

lemma not_digit_chars: "\<not> isDigit CHR ''.''" "\<not> isDigit CHR ''-''" "\<not> isDigit CHR '',''"
  by (simp_all add: isDigit_def)

lemma digit_not_space: "isDigit c \<Longrightarrow> \<not> isSpace c"
  by (auto simp: isDigit_def isSpace_def)

lemma minus_not_space: "\<not> isSpace CHR ''-''"
  by (simp add: isSpace_def)

lemma digits_tail:
  assumes "list_all isDigit ip"
  shows "takeWhile isDigit (ip @ CHR ''.'' # fp) = ip \<and> dropWhile isDigit (ip @ CHR ''.'' # fp) = CHR ''.'' # fp"
  using assms by (induction ip) (simp_all add: not_digit_chars)

lemma digits_all:
  assumes "list_all isDigit t"
  shows "takeWhile isDigit t = t \<and> dropWhile isDigit t = []"
  using assms by (induction t) simp_all

text \<open>The pattern of one group, read as a grammar.\<close>

lemma numberToken_iff:
  "numberToken s \<longleftrightarrow>
     (\<exists>sg ip dot fp. s = sg @ ip @ dot @ fp \<and> (sg = [] \<or> sg = ''-'') \<and> ip \<noteq> [] \<and>
        list_all isDigit ip \<and> (dot = [] \<or> dot = ''.'') \<and> list_all isDigit fp)"
  (is "?L \<longleftrightarrow> ?R")
proof
  assume l: ?L
  define s1 where "s1 = (case s of [] \<Rightarrow> [] | c # r \<Rightarrow> if c = CHR ''-'' then r else s)"
  define s2 where "s2 = dropWhile isDigit s1"
  define s3 where "s3 = (case s2 of [] \<Rightarrow> [] | c # r \<Rightarrow> if c = CHR ''.'' then r else s2)"
  from l have ds: "takeWhile isDigit s1 \<noteq> []" and fp: "list_all isDigit s3"
    unfolding numberToken_def s1_def s2_def s3_def Let_def by blast+
  have "s = [] @ s1 \<or> s = ''-'' @ s1"
    by (cases s) (simp_all add: s1_def)
  then obtain sg where sg: "s = sg @ s1" "sg = [] \<or> sg = ''-''"
    by blast
  have ip: "list_all isDigit (takeWhile isDigit s1)"
    by (simp add: list_all_iff) (meson set_takeWhileD)
  have split: "s1 = takeWhile isDigit s1 @ s2" by (simp add: s2_def)
  obtain dot where dot: "s2 = dot @ s3" "dot = [] \<or> dot = ''.''"
  proof (cases s2)
    case Nil
    then show ?thesis using that by (simp add: s3_def)
  next
    case (Cons c r)
    then have nd: "\<not> isDigit c" using hd_dropWhile [of isDigit s1] by (simp add: s2_def)
    show ?thesis
    proof (cases "c = CHR ''.''")
      case True
      with Cons that show ?thesis by (simp add: s3_def)
    next
      case False
      with Cons fp nd show ?thesis by (simp add: s3_def)
    qed
  qed
  have "s = sg @ takeWhile isDigit s1 @ dot @ s3"
    using sg(1) split dot(1) by simp
  with sg(2) ds ip dot(2) fp show ?R by blast
next
  assume ?R
  then obtain sg ip dot fp where s: "s = sg @ ip @ dot @ fp" and sg: "sg = [] \<or> sg = ''-''"
    and ip: "ip \<noteq> []" "list_all isDigit ip" and dot: "dot = [] \<or> dot = ''.''"
    and fp: "list_all isDigit fp" by blast
  obtain d ds where ipc: "ip = d # ds" using ip(1) by (cases ip) auto
  with ip(2) have d: "isDigit d" by simp
  then have dm: "d \<noteq> CHR ''-''" using not_digit_chars by auto
  have s1: "(case s of [] \<Rightarrow> [] | c # r \<Rightarrow> if c = CHR ''-'' then r else s) = ip @ dot @ fp"
    using sg s ipc dm by auto
  show ?L
  proof (cases "dot = []")
    case True
    then have "list_all isDigit (ip @ dot @ fp)" using ip(2) fp by simp
    from digits_all [OF this]
    have tw: "takeWhile isDigit (ip @ dot @ fp) = ip @ dot @ fp"
      and dw: "dropWhile isDigit (ip @ dot @ fp) = []" by simp_all
    show ?thesis unfolding numberToken_def s1 Let_def tw dw using ip(1) by simp
  next
    case False
    with dot have d: "dot = ''.''" by simp
    from digits_tail [OF ip(2), of fp]
    have tw: "takeWhile isDigit (ip @ dot @ fp) = ip"
      and dw: "dropWhile isDigit (ip @ dot @ fp) = CHR ''.'' # fp" by (simp_all add: d)
    show ?thesis unfolding numberToken_def s1 Let_def tw dw using ip(1) fp by simp
  qed
qed

lemma numberToken_shape:
  assumes "numberToken s"
  shows "CHR '','' \<notin> set s \<and> \<not> isSpace (hd s)"
proof -
  from assms obtain sg ip dot fp where s: "s = sg @ ip @ dot @ fp" and sg: "sg = [] \<or> sg = ''-''"
    and ip: "ip \<noteq> []" "list_all isDigit ip" and dot: "dot = [] \<or> dot = ''.''"
    and fp: "list_all isDigit fp" unfolding numberToken_iff by blast
  have "CHR '','' \<notin> set ip" "CHR '','' \<notin> set fp"
    using ip(2) fp not_digit_chars(3) by (auto simp: list_all_iff)
  then have a: "CHR '','' \<notin> set s" using s sg dot by auto
  obtain d ds where ipc: "ip = d # ds" using ip(1) by (cases ip) auto
  with ip(2) have "isDigit d" by simp
  then have "\<not> isSpace (hd s)" using s sg ipc digit_not_space minus_not_space by auto
  with a show ?thesis by simp
qed

text \<open>The whole pattern, read as a grammar.\<close>

lemma coordMatch_iff:
  "coordMatch q = Some (g1, g2) \<longleftrightarrow>
     numberToken g1 \<and> numberToken g2 \<and> (\<exists>ws. list_all isSpace ws \<and> q = g1 @ CHR '','' # ws @ g2)"
  (is "?L \<longleftrightarrow> ?R")
proof
  assume a: ?L
  let ?P = "\<lambda>c. c \<noteq> CHR '',''"
  from a obtain c r1 where r: "dropWhile ?P q = c # r1"
    and g1: "g1 = takeWhile ?P q" and g2: "g2 = dropWhile isSpace r1"
    and nt: "numberToken g1" "numberToken g2"
    by (auto simp: coordMatch_def Let_def split: list.splits if_splits)
  from r have c: "c = CHR '',''"
    using hd_dropWhile [of ?P q] by auto
  have "q = takeWhile ?P q @ dropWhile ?P q" by simp
  also have "\<dots> = g1 @ CHR '','' # takeWhile isSpace r1 @ g2"
    using r g1 g2 c by simp
  finally have "q = g1 @ CHR '','' # takeWhile isSpace r1 @ g2" .
  moreover have "list_all isSpace (takeWhile isSpace r1)"
    by (simp add: list_all_iff) (meson set_takeWhileD)
  ultimately show ?R using nt by blast
next
  assume ?R
  then obtain ws where nt: "numberToken g1" "numberToken g2"
    and ws: "list_all isSpace ws" and q: "q = g1 @ CHR '','' # ws @ g2" by blast
  let ?P = "\<lambda>c. c \<noteq> CHR '',''"
  from numberToken_shape [OF nt(1)] have "\<forall>c\<in>set g1. ?P c" by auto
  then have t: "takeWhile ?P q = g1" and d: "dropWhile ?P q = CHR '','' # ws @ g2"
    unfolding q by (simp_all add: takeWhile_append2 dropWhile_append2)
  from numberToken_shape [OF nt(2)] numberToken_nonempty [OF nt(2)]
  obtain h tl2 where g2: "g2 = h # tl2" "\<not> isSpace h" by (cases g2) auto
  have "dropWhile isSpace (ws @ g2) = g2"
    using ws g2 by (simp add: list_all_iff)
  with t d nt show ?L by (simp add: coordMatch_def Let_def)
qed

text \<open>The shortest match has three characters, so the length test \<open>query.length > 2\<close>
  lets every matching query through.\<close>

lemma coordMatch_length: "coordMatch q = Some (g1, g2) \<Longrightarrow> 2 < length q"
proof -
  assume a: "coordMatch q = Some (g1, g2)"
  then obtain ws where
    "g1 \<noteq> []" "g2 \<noteq> []" "q = g1 @ CHR '','' # ws @ g2"
    unfolding coordMatch_iff using numberToken_nonempty by blast
  then show ?thesis by (cases g1; cases g2) auto
qed

lemma coordinates_in_range:
  assumes "coordMatch q = Some (g1, g2)"
    and "js_ge (pf g1) (Finite (- 90))" and "js_le (pf g1) (Finite 90)"
    and "js_ge (pf g2) (Finite (- 180))" and "js_le (pf g2) (Finite 180)"
  shows "coordinates pf q = Some (pf g1, pf g2)"
  using assms by (simp add: coordinates_def Let_def)

lemma coordinates_out_of_range:
  assumes "coordMatch q = Some (g1, g2)"
    and "\<not> (js_ge (pf g1) (Finite (- 90)) \<and> js_le (pf g1) (Finite 90) \<and>
            js_ge (pf g2) (Finite (- 180)) \<and> js_le (pf g2) (Finite 180))"
  shows "coordinates pf q = None"
  using assms by (auto simp: coordinates_def Let_def)

lemma coordMatch_near: "coordMatch ''13.05, 80.27'' = Some (''13.05'', ''80.27'')"
  by (simp add: coordMatch_def numberToken_def isDigit_def isSpace_def)

lemma coordMatch_far: "coordMatch ''95, 200'' = Some (''95'', ''200'')"
  by (simp add: coordMatch_def numberToken_def isDigit_def isSpace_def)

lemma parseDecimal_examples:
  "parseDecimal ''13.05'' = Finite (261 / 20)" "parseDecimal ''80.27'' = Finite (8027 / 100)"
  "parseDecimal ''95'' = Finite 95" "parseDecimal ''200'' = Finite 200"
  by (simp_all add: parseDecimal_def isSpace_def isDigit_def digitsVal_def digitVal_def Let_def)

section \<open>LocationInput: the steps\<close>

lemma type_step:
  "li_step pf ns (Type s) st = (if s = query st then st else searchEffect (st\<lparr>query := s\<rparr>))"
  by (auto simp: li_step_def rerender_def)

lemma fire_coords:
  assumes t: "searchTimeout st = Some q" and c: "coordinates pf q = Some (la, lo)"
  shows "emitted (li_step pf ns TimerFire st) =
           emitted st @ [Some \<lparr>lat = la, lng = lo, address = Some (ns la @ '', '' @ ns lo)\<rparr>] \<and>
         valueProp (li_step pf ns TimerFire st) =
           Some \<lparr>lat = la, lng = lo, address = Some (ns la @ '', '' @ ns lo)\<rparr> \<and>
         issued (li_step pf ns TimerFire st) = issued st \<and>
         pending (li_step pf ns TimerFire st) = pending st \<and>
         results (li_step pf ns TimerFire st) = [] \<and>
         \<not> showResults (li_step pf ns TimerFire st) \<and>
         \<not> isSearching (li_step pf ns TimerFire st)"
  using t c
  by (simp add: li_step_def timeoutCallback_def onChange_def rerender_def searchEffect_def
      displayText_def Let_def)

lemma fire_search:
  assumes t: "searchTimeout st = Some q" and c: "coordinates pf q = None"
  shows "li_step pf ns TimerFire st =
           st\<lparr>searchTimeout := None, isSearching := True,
              pending := pending st @ [q], issued := issued st @ [q]\<rparr>"
  using t c
  by (simp add: li_step_def timeoutCallback_def rerender_def)

text \<open>Debounce: whatever happens, a pending timeout is the one of the current query.\<close>

lemma searchEffect_timer: "timer_current (searchEffect st)"
  by (simp add: searchEffect_def timer_current_def Let_def)

lemma rerender_timer:
  assumes "query st = query old \<Longrightarrow> timer_current st"
  shows "timer_current (rerender ns old st)"
  using assms by (auto simp: rerender_def Let_def searchEffect_timer)

lemma step_timer_current:
  assumes "timer_current st"
  shows "timer_current (li_step pf ns ev st)"
proof (cases ev)
  case (Type s)
  with assms show ?thesis by (simp add: type_step searchEffect_timer)
next
  case TimerFire
  show ?thesis
  proof (cases "searchTimeout st")
    case None
    with TimerFire assms show ?thesis by (simp add: li_step_def)
  next
    case (Some q)
    have "timer_current (timeoutCallback pf ns q (st\<lparr>searchTimeout := None\<rparr>))"
      by (simp add: timeoutCallback_def timer_current_def onChange_def Let_def
          split: option.splits prod.splits)
    with TimerFire Some show ?thesis by (simp add: li_step_def rerender_timer)
  qed
next
  case (SearchAnswer i answer)
  with assms show ?thesis
    by (simp add: li_step_def searchResolved_def timer_current_def Let_def split: option.splits)
next
  case (SelectResult r)
  have "query (handleSelectResult pf r st) = query st \<Longrightarrow> timer_current (handleSelectResult pf r st)"
    using assms by (simp add: handleSelectResult_def onChange_def timer_current_def split: option.splits)
  with SelectResult show ?thesis by (simp add: li_step_def rerender_timer)
next
  case Clear
  have "query (handleClear st) = query st \<Longrightarrow> timer_current (handleClear st)"
    using assms by (simp add: handleClear_def onChange_def timer_current_def split: option.splits)
  with Clear show ?thesis by (simp add: li_step_def rerender_timer)
next
  case ClickOutside
  with assms show ?thesis by (simp add: li_step_def timer_current_def split: option.splits)
next
  case (ExternalValue v)
  have "timer_current (st\<lparr>valueProp := v,
      valueStamp := (if v = None \<and> valueProp st = None then valueStamp st else Suc (valueStamp st))\<rparr>)"
    using assms by (simp add: timer_current_def split: option.splits)
  with ExternalValue show ?thesis by (simp add: li_step_def rerender_timer)
qed

lemma run_timer_current:
  "timer_current st \<Longrightarrow> timer_current (li_run pf ns evs st)"
  by (induction evs arbitrary: st) (simp_all add: step_timer_current)

lemma li_init_timer_current: "timer_current li_init"
  by (simp add: timer_current_def li_init_def)

lemma searchingChe_eq:
  "searchingChe = \<lparr>valueProp = None, valueStamp = 0, query = ''che'', results = [],
     isSearching = True, showResults = False, searchTimeout = None, pending = [''che''],
     issued = [''che''], emitted = []\<rparr>"
  by (simp add: searchingChe_def li_init_def li_step_def rerender_def searchEffect_def
      timeoutCallback_def coordinates_def coordMatch_def)

lemma shownChennai_eq:
  "shownChennai = \<lparr>valueProp = None, valueStamp = 0, query = ''che'', results = [chennai, cheyyar],
     isSearching = False, showResults = True, searchTimeout = None, pending = [],
     issued = [''che''], emitted = []\<rparr>"
  by (simp add: shownChennai_def li_init_def li_step_def rerender_def searchEffect_def
      timeoutCallback_def coordinates_def coordMatch_def searchResolved_def searchLocation_def)

lemma typedCoordinates_eq:
  "typedCoordinates = li_init\<lparr>query := ''13.05, 80.27'', searchTimeout := Some ''13.05, 80.27''\<rparr>"
  by (simp add: typedCoordinates_def type_step li_init_def searchEffect_def)

lemma typedFarCoordinates_eq:
  "typedFarCoordinates = li_init\<lparr>query := ''95, 200'', searchTimeout := Some ''95, 200''\<rparr>"
  by (simp add: typedFarCoordinates_def type_step li_init_def searchEffect_def)

section \<open>LocationInput: the length gate and the coordinate short-circuit\<close>

text \<open>
  C8. When the query becomes a text \<open>q\<close> of length at most 2, the search effect starts no
  timeout: the result list is cleared and the dropdown closed, no geocoding call is issued
  or left waiting anew, nothing is emitted (no coordinate is parsed), and a timeout
  firing afterwards finds nothing to run. More generally, in no state the component
  reaches is a timeout pending while the query has at most 2 characters.
\<close>

theorem short_query_no_search:
  assumes "length q \<le> 2" and "q \<noteq> query st"
  shows "query (li_step pf ns (Type q) st) = q \<and>
         results (li_step pf ns (Type q) st) = [] \<and>
         \<not> showResults (li_step pf ns (Type q) st) \<and>
         searchTimeout (li_step pf ns (Type q) st) = None \<and>
         issued (li_step pf ns (Type q) st) = issued st \<and>
         pending (li_step pf ns (Type q) st) = pending st \<and>
         emitted (li_step pf ns (Type q) st) = emitted st \<and>
         li_step pf ns TimerFire (li_step pf ns (Type q) st) = li_step pf ns (Type q) st \<and>
         (length (query (li_run pf ns evs li_init)) \<le> 2 \<longrightarrow>
            searchTimeout (li_run pf ns evs li_init) = None)"
proof -
  have s: "li_step pf ns (Type q) st =
      st\<lparr>query := q, searchTimeout := None, results := [], showResults := False\<rparr>"
    using assms by (simp add: type_step searchEffect_def)
  have r: "length (query (li_run pf ns evs li_init)) \<le> 2 \<longrightarrow>
            searchTimeout (li_run pf ns evs li_init) = None"
    using run_timer_current [OF li_init_timer_current, of pf ns evs]
    by (auto simp: timer_current_def split: option.splits)
  show ?thesis unfolding s using r by (simp add: li_step_def)
qed

text \<open>Witness for C8: with the two results for \<open>che\<close> shown, deleting the \<open>e\<close> clears
  them.\<close>

theorem short_query_no_search_witness:
  "length ''ch'' \<le> 2 \<and> ''ch'' \<noteq> query shownChennai \<and> results shownChennai = [chennai, cheyyar] \<and>
   results (li_step parseDecimal showDecimal (Type ''ch'') shownChennai) = [] \<and>
   \<not> showResults (li_step parseDecimal showDecimal (Type ''ch'') shownChennai) \<and>
   searchTimeout (li_step parseDecimal showDecimal (Type ''ch'') shownChennai) = None \<and>
   issued (li_step parseDecimal showDecimal (Type ''ch'') shownChennai) = issued shownChennai"
proof -
  have h1: "length ''ch'' \<le> 2" by simp
  have h2: "''ch'' \<noteq> query shownChennai" by (simp add: shownChennai_eq)
  have r: "results shownChennai = [chennai, cheyyar]" by (simp add: shownChennai_eq)
  from short_query_no_search [OF h1 h2, where pf = parseDecimal and ns = showDecimal] h1 h2 r
  show ?thesis by blast
qed

text \<open>
  C5. Let the query \<open>q\<close> match the coordinate pattern with groups \<open>g1\<close> and \<open>g2\<close>, the
  parsed first group lie in [-90, 90] and the parsed second group in [-180, 180]. Then
  \<open>q\<close> is longer than 2, so the search effect starts a timeout for it whenever the query
  becomes \<open>q\<close>; and when the timeout of \<open>q\<close> fires the
  component emits the location \<open>{lat: parseFloat(g1), lng: parseFloat(g2)}\<close> (with the
  two numbers as its address), calls no geocoding search, clears the result list and
  closes the dropdown.
\<close>

theorem coordinate_query_short_circuits:
  assumes "coordMatch q = Some (g1, g2)"
    and "js_ge (pf g1) (Finite (- 90))" and "js_le (pf g1) (Finite 90)"
    and "js_ge (pf g2) (Finite (- 180))" and "js_le (pf g2) (Finite 180)"
    and "searchTimeout st = Some q"
  shows "2 < length q \<and>
         searchTimeout (searchEffect (st0\<lparr>query := q\<rparr>)) = Some q \<and>
         emitted (li_step pf ns TimerFire st) =
           emitted st @ [Some \<lparr>lat = pf g1, lng = pf g2,
                               address = Some (ns (pf g1) @ '', '' @ ns (pf g2))\<rparr>] \<and>
         issued (li_step pf ns TimerFire st) = issued st \<and>
         pending (li_step pf ns TimerFire st) = pending st \<and>
         results (li_step pf ns TimerFire st) = [] \<and>
         \<not> showResults (li_step pf ns TimerFire st)"
proof -
  have c: "coordinates pf q = Some (pf g1, pf g2)"
    using assms(1-5) by (rule coordinates_in_range)
  from fire_coords [OF assms(6) c, of ns] coordMatch_length [OF assms(1)]
  show ?thesis by (simp add: searchEffect_def)
qed

text \<open>Witness for C5: the query \<open>13.05, 80.27\<close> of the specification.\<close>

theorem coordinate_query_short_circuits_witness:
  "coordMatch ''13.05, 80.27'' = Some (''13.05'', ''80.27'') \<and>
   js_ge (parseDecimal ''13.05'') (Finite (- 90)) \<and> js_le (parseDecimal ''13.05'') (Finite 90) \<and>
   js_ge (parseDecimal ''80.27'') (Finite (- 180)) \<and> js_le (parseDecimal ''80.27'') (Finite 180) \<and>
   searchTimeout typedCoordinates = Some ''13.05, 80.27'' \<and>
   emitted (li_step parseDecimal showDecimal TimerFire typedCoordinates) =
     [Some \<lparr>lat = Finite (261 / 20), lng = Finite (8027 / 100),
            address = Some (showDecimal (Finite (261 / 20)) @ '', '' @ showDecimal (Finite (8027 / 100)))\<rparr>] \<and>
   issued (li_step parseDecimal showDecimal TimerFire typedCoordinates) = [] \<and>
   results (li_step parseDecimal showDecimal TimerFire typedCoordinates) = []"
proof -
  have h2: "js_ge (parseDecimal ''13.05'') (Finite (- 90))"
    and h3: "js_le (parseDecimal ''13.05'') (Finite 90)"
    and h4: "js_ge (parseDecimal ''80.27'') (Finite (- 180))"
    and h5: "js_le (parseDecimal ''80.27'') (Finite 180)"
    by (simp_all add: parseDecimal_examples js_ge_def)
  have h6: "searchTimeout typedCoordinates = Some ''13.05, 80.27''"
    by (simp add: typedCoordinates_eq)
  have e: "emitted typedCoordinates = []" "issued typedCoordinates = []"
    by (simp_all add: typedCoordinates_eq li_init_def)
  from coordinate_query_short_circuits [OF coordMatch_near h2 h3 h4 h5 h6, where ns = showDecimal]
    coordMatch_near h2 h3 h4 h5 h6 e
  show ?thesis by (simp add: parseDecimal_examples)
qed

text \<open>
  C10. Let the query \<open>q\<close> match the coordinate pattern while a parsed group lies outside
  its range. The search effect starts a timeout for \<open>q\<close> as for any text longer than 2;
  when it fires, no location is emitted and the value is
  unchanged; the text \<open>q\<close> itself is sent to the geocoding search, which is then awaited.
\<close>

theorem out_of_range_coordinates_fall_through:
  assumes "coordMatch q = Some (g1, g2)"
    and "\<not> (js_ge (pf g1) (Finite (- 90)) \<and> js_le (pf g1) (Finite 90) \<and>
            js_ge (pf g2) (Finite (- 180)) \<and> js_le (pf g2) (Finite 180))"
    and "searchTimeout st = Some q"
  shows "searchTimeout (searchEffect (st0\<lparr>query := q\<rparr>)) = Some q \<and>
         emitted (li_step pf ns TimerFire st) = emitted st \<and>
         valueProp (li_step pf ns TimerFire st) = valueProp st \<and>
         query (li_step pf ns TimerFire st) = query st \<and>
         issued (li_step pf ns TimerFire st) = issued st @ [q] \<and>
         pending (li_step pf ns TimerFire st) = pending st @ [q] \<and>
         isSearching (li_step pf ns TimerFire st)"
proof -
  have c: "coordinates pf q = None"
    using assms(1,2) by (rule coordinates_out_of_range)
  show ?thesis unfolding fire_search [OF assms(3) c]
    using coordMatch_length [OF assms(1)] by (simp add: searchEffect_def)
qed

text \<open>Witness for C10: the query \<open>95, 200\<close>.\<close>

theorem out_of_range_coordinates_fall_through_witness:
  "coordMatch ''95, 200'' = Some (''95'', ''200'') \<and>
   \<not> js_le (parseDecimal ''95'') (Finite 90) \<and>
   searchTimeout typedFarCoordinates = Some ''95, 200'' \<and>
   emitted (li_step parseDecimal showDecimal TimerFire typedFarCoordinates) = [] \<and>
   issued (li_step parseDecimal showDecimal TimerFire typedFarCoordinates) = [''95, 200'']"
proof -
  have n: "\<not> js_le (parseDecimal ''95'') (Finite 90)"
    by (simp add: parseDecimal_examples)
  then have h2: "\<not> (js_ge (parseDecimal ''95'') (Finite (- 90)) \<and> js_le (parseDecimal ''95'') (Finite 90) \<and>
            js_ge (parseDecimal ''200'') (Finite (- 180)) \<and> js_le (parseDecimal ''200'') (Finite 180))"
    by simp
  have h3: "searchTimeout typedFarCoordinates = Some ''95, 200''"
    by (simp add: typedFarCoordinates_eq)
  have e: "emitted typedFarCoordinates = []" "issued typedFarCoordinates = []"
    by (simp_all add: typedFarCoordinates_eq li_init_def)
  from out_of_range_coordinates_fall_through [OF coordMatch_far h2 h3, where ns = showDecimal]
    coordMatch_far n h3 e
  show ?thesis by simp
qed

section \<open>LocationInput: answers, external values and selection\<close>

text \<open>
  C1 as stated fails. Counterexample: \<open>che\<close> is typed and its search issued, then
  \<open>chen\<close> is typed and its search issued; the answer for \<open>chen\<close> arrives first and
  is shown; the answer for \<open>che\<close> arrives next and replaces it, while the query is
  \<open>chen\<close>.
\<close>

theorem stale_search_answer_applied:
  "query (li_run parseDecimal showDecimal
      [Type ''che'', TimerFire, Type ''chen'', TimerFire,
       SearchAnswer 1 (Some [chennai]), SearchAnswer 0 (Some [chennai, cheyyar])] li_init) = ''chen'' \<and>
   issued (li_run parseDecimal showDecimal
      [Type ''che'', TimerFire, Type ''chen'', TimerFire] li_init) = [''che'', ''chen''] \<and>
   results (li_run parseDecimal showDecimal
      [Type ''che'', TimerFire, Type ''chen'', TimerFire,
       SearchAnswer 1 (Some [chennai])] li_init) = [chennai] \<and>
   results (li_run parseDecimal showDecimal
      [Type ''che'', TimerFire, Type ''chen'', TimerFire,
       SearchAnswer 1 (Some [chennai]), SearchAnswer 0 (Some [chennai, cheyyar])] li_init)
     = [chennai, cheyyar] \<and>
   showResults (li_run parseDecimal showDecimal
      [Type ''che'', TimerFire, Type ''chen'', TimerFire,
       SearchAnswer 1 (Some [chennai]), SearchAnswer 0 (Some [chennai, cheyyar])] li_init)"
  by code_simp

text \<open>
  C1, amended. A search that was issued is applied when its answer arrives: the result
  list, \<open>isSearching\<close> and the visibility of the dropdown are set from the answer,
  whatever the query is by then. What a change of the query does cancel is the pending
  timeout: it is replaced by the one of the new query (or by none, for a short query),
  and the change itself issues no search.
\<close>

theorem search_answer_applied_on_arrival:
  assumes "i < length (pending st)" and "s \<noteq> query st"
  shows "results (li_step pf ns (SearchAnswer i answer) st) = searchLocation answer \<and>
         showResults (li_step pf ns (SearchAnswer i answer) st) = (0 < length (searchLocation answer)) \<and>
         \<not> isSearching (li_step pf ns (SearchAnswer i answer) st) \<and>
         query (li_step pf ns (SearchAnswer i answer) st) = query st \<and>
         searchTimeout (li_step pf ns (Type s) st) = (if 2 < length s then Some s else None) \<and>
         issued (li_step pf ns (Type s) st) = issued st"
  using assms
  by (simp add: li_step_def searchResolved_def Let_def rerender_def searchEffect_def)

text \<open>Witness for the amended C1: the search for \<open>che\<close> awaits its answer.\<close>

theorem search_answer_applied_on_arrival_witness:
  "0 < length (pending searchingChe) \<and> ''chen'' \<noteq> query searchingChe \<and>
   results (li_step parseDecimal showDecimal (SearchAnswer 0 (Some [chennai])) searchingChe)
     = searchLocation (Some [chennai]) \<and>
   searchTimeout (li_step parseDecimal showDecimal (Type ''chen'') searchingChe) = Some ''chen''"
proof -
  have h1: "0 < length (pending searchingChe)" by (simp add: searchingChe_eq)
  have h2: "''chen'' \<noteq> query searchingChe" by (simp add: searchingChe_eq)
  from search_answer_applied_on_arrival [OF h1 h2, of parseDecimal showDecimal "Some [chennai]"] h1 h2
  show ?thesis by simp
qed

text \<open>
  C7 as stated fails. Counterexample: the parent sets the value to a location with the
  address \<open>Chennai, India\<close>; the query becomes that address, the search effect starts
  a timeout for it, and when the timeout fires the address is sent to the geocoding
  search.
\<close>

theorem external_value_triggers_search:
  "query (li_step parseDecimal showDecimal (ExternalValue (Some chennaiLocation)) li_init)
     = ''Chennai, India'' \<and>
   issued (li_run parseDecimal showDecimal [ExternalValue (Some chennaiLocation), TimerFire] li_init)
     = [''Chennai, India'']"
  by code_simp

text \<open>
  C7, amended. When the parent replaces the value (by a location, or by null after a
  location), the query becomes the address of the location if it has one that is not
  empty, else \<open>lat, lng\<close> as printed numbers, else the empty text for null. The
  replacement itself calls no geocoding search; but when it changes the query, the
  search effect runs as after a keystroke: a new text longer than 2 starts the timeout
  that will search for it, a shorter one starts none.
\<close>

theorem external_value_sync:
  assumes "v \<noteq> None \<or> valueProp st \<noteq> None"
  shows "query (li_step pf ns (ExternalValue v) st) = displayText ns v \<and>
         (\<forall>l a. v = Some l \<and> address l = Some a \<and> a \<noteq> [] \<longrightarrow> displayText ns v = a) \<and>
         (\<forall>l. v = Some l \<and> (address l = None \<or> address l = Some []) \<longrightarrow>
              displayText ns v = ns (lat l) @ '', '' @ ns (lng l)) \<and>
         (v = None \<longrightarrow> displayText ns v = []) \<and>
         issued (li_step pf ns (ExternalValue v) st) = issued st \<and>
         pending (li_step pf ns (ExternalValue v) st) = pending st \<and>
         (displayText ns v \<noteq> query st \<longrightarrow>
            searchTimeout (li_step pf ns (ExternalValue v) st)
              = (if 2 < length (displayText ns v) then Some (displayText ns v) else None))"
proof -
  have d: "(\<forall>l a. v = Some l \<and> address l = Some a \<and> a \<noteq> [] \<longrightarrow> displayText ns v = a) \<and>
         (\<forall>l. v = Some l \<and> (address l = None \<or> address l = Some []) \<longrightarrow>
              displayText ns v = ns (lat l) @ '', '' @ ns (lng l)) \<and>
         (v = None \<longrightarrow> displayText ns v = [])"
    by (auto simp: displayText_def)
  have s: "li_step pf ns (ExternalValue v) st =
      (if displayText ns v \<noteq> query st
       then searchEffect (st\<lparr>valueProp := v, valueStamp := Suc (valueStamp st), query := displayText ns v\<rparr>)
       else st\<lparr>valueProp := v, valueStamp := Suc (valueStamp st)\<rparr>)"
    using assms by (auto simp: li_step_def rerender_def Let_def)
  have "query (li_step pf ns (ExternalValue v) st) = displayText ns v \<and>
        issued (li_step pf ns (ExternalValue v) st) = issued st \<and>
        pending (li_step pf ns (ExternalValue v) st) = pending st \<and>
        (displayText ns v \<noteq> query st \<longrightarrow>
            searchTimeout (li_step pf ns (ExternalValue v) st)
              = (if 2 < length (displayText ns v) then Some (displayText ns v) else None))"
    unfolding s by (simp add: searchEffect_def Let_def)
  with d show ?thesis by blast
qed

text \<open>Witness for the amended C7: a location without address.\<close>

theorem external_value_sync_witness:
  "Some startPoint \<noteq> None \<and>
   query (li_step parseDecimal showDecimal (ExternalValue (Some startPoint)) li_init)
     = ''13.0827, 80.2707'' \<and>
   issued (li_step parseDecimal showDecimal (ExternalValue (Some startPoint)) li_init) = issued li_init"
proof -
  have h: "Some startPoint \<noteq> None \<or> valueProp li_init \<noteq> None" by simp
  have t: "displayText showDecimal (Some startPoint) = ''13.0827, 80.2707''"
    by code_simp
  from external_value_sync [OF h, of parseDecimal showDecimal] h t
  show ?thesis by simp
qed

text \<open>
  C9 as stated fails. Counterexample: a result whose \<open>display_name\<close> is empty, with
  \<open>lat\<close> \<open>1\<close> and \<open>lon\<close> \<open>2\<close>; the text derived from the emitted location, and shown
  in the field, is \<open>1, 2\<close>.
\<close>

theorem select_unnamed_result_shows_coordinates:
  "display_name unnamedPlace = [] \<and>
   query (li_step parseDecimal showDecimal (SelectResult unnamedPlace) li_init) = ''1, 2'' \<and>
   displayText showDecimal
     (valueProp (li_step parseDecimal showDecimal (SelectResult unnamedPlace) li_init)) = ''1, 2''"
  by code_simp

text \<open>
  C9, amended. Selecting a result whose \<open>display_name\<close> is not empty emits the location
  \<open>{lat: parseFloat(result.lat), lng: parseFloat(result.lon), address:
  result.display_name}\<close>, closes the dropdown, and the text derived from that location,
  which the field then shows, is the \<open>display_name\<close> of the result.
\<close>

theorem select_result_round_trip:
  assumes "display_name r \<noteq> []"
  shows "emitted (li_step pf ns (SelectResult r) st) =
           emitted st @ [Some \<lparr>lat = pf (res_lat r), lng = pf (res_lon r),
                               address = Some (display_name r)\<rparr>] \<and>
         valueProp (li_step pf ns (SelectResult r) st) =
           Some \<lparr>lat = pf (res_lat r), lng = pf (res_lon r), address = Some (display_name r)\<rparr> \<and>
         displayText ns (valueProp (li_step pf ns (SelectResult r) st)) = display_name r \<and>
         query (li_step pf ns (SelectResult r) st) = display_name r \<and>
         \<not> showResults (li_step pf ns (SelectResult r) st)"
  using assms
  by (simp add: li_step_def handleSelectResult_def onChange_def rerender_def displayText_def
      searchEffect_def Let_def)

text \<open>Witness for the amended C9: the first of the two results shown.\<close>

theorem select_result_round_trip_witness:
  "display_name chennai \<noteq> [] \<and>
   valueProp (li_step parseDecimal showDecimal (SelectResult chennai) shownChennai) =
     Some chennaiLocation \<and>
   query (li_step parseDecimal showDecimal (SelectResult chennai) shownChennai) = ''Chennai, India''"
proof -
  have h: "display_name chennai \<noteq> []" by (simp add: chennai_def)
  have p: "parseDecimal (res_lat chennai) = Finite (130827 / 10000)"
    "parseDecimal (res_lon chennai) = Finite (802707 / 10000)"
    by (simp_all add: chennai_def parseDecimal_def isSpace_def isDigit_def digitsVal_def
        digitVal_def Let_def)
  from select_result_round_trip [OF h, of parseDecimal showDecimal shownChennai] h p
  show ?thesis by (simp add: chennai_def chennaiLocation_def)
qed

section \<open>App: the steps\<close>

lemma handlePlanRoute_selection:
  "selectedRoute (handlePlanRoute ns st) = selectedRoute st \<and>
   routeData (handlePlanRoute ns st) = routeData st"
  by (simp add: handlePlanRoute_def Let_def split: option.splits)

lemma step_keeps_selection:
  "\<not> changes_selection ev \<Longrightarrow>
     selectedRoute (app_step ns ev st) = selectedRoute st \<and>
     routeData (app_step ns ev st) = routeData st"
  by (cases ev) (simp_all add: app_step_def changes_selection_def handleRetry_def
      handlePlanRoute_selection)

lemma run_keeps_selection:
  "list_all (\<lambda>ev. \<not> changes_selection ev) evs \<Longrightarrow>
     selectedRoute (app_run ns evs st) = selectedRoute st \<and>
     routeData (app_run ns evs st) = routeData st"
proof (induction evs arbitrary: st)
  case Nil
  then show ?case by simp
next
  case (Cons ev evs)
  then show ?case using step_keeps_selection [of ev ns st] by simp
qed

lemma step_selection_valid:
  assumes "selection_valid st" and "offered ev st" and "answer_ok ev"
  shows "selection_valid (app_step ns ev st)"
proof (cases ev)
  case (SelectRoute route)
  with assms show ?thesis
    by (auto simp: app_step_def offered_def handleRouteSelect_def selection_valid_def
        split: option.splits)
next
  case (PlanAnswer i answer)
  with assms show ?thesis
    by (cases answer)
      (auto simp: app_step_def planResolved_def answer_ok_def recommends_option_def
        selection_valid_def Let_def split: option.splits)
next
  case ClickPlan
  with assms show ?thesis
    using handlePlanRoute_selection [of ns st]
    by (simp add: app_step_def selection_valid_def split: option.splits)
next
  case ClickRetry
  with assms show ?thesis
    using handlePlanRoute_selection [of ns "st\<lparr>error := None\<rparr>"]
    by (simp add: app_step_def handleRetry_def selection_valid_def split: option.splits)
qed (use assms in \<open>simp_all add: app_step_def selection_valid_def split: option.splits\<close>)

lemma run_selection_valid:
  "selection_valid st \<Longrightarrow> ui_trace ns evs st \<Longrightarrow> list_all answer_ok evs \<Longrightarrow>
     selection_valid (app_run ns evs st)"
proof (induction evs arbitrary: st)
  case Nil
  then show ?case by simp
next
  case (Cons ev evs)
  then show ?case using step_selection_valid [of st ev ns] by simp
qed

lemma handlePlanRoute_flight:
  assumes "inflight st = []"
  shows "single_flight (handlePlanRoute ns st)"
  using assms
  by (simp add: handlePlanRoute_def single_flight_def Let_def split: option.splits)

lemma offered_plan_idle:
  "single_flight st \<Longrightarrow> offered ClickPlan st \<or> offered ClickRetry st \<Longrightarrow> inflight st = []"
  by (auto simp: single_flight_def offered_def split: list.splits option.splits)

lemma step_single_flight:
  assumes "single_flight st" and "offered ev st"
  shows "single_flight (app_step ns ev st)"
proof (cases ev)
  case ClickPlan
  with assms offered_plan_idle [of st] show ?thesis
    by (simp add: app_step_def handlePlanRoute_flight)
next
  case ClickRetry
  with assms offered_plan_idle [of st] show ?thesis
    by (simp add: app_step_def handleRetry_def handlePlanRoute_flight)
next
  case (PlanAnswer i answer)
  with assms show ?thesis
    by (cases answer)
      (auto simp: app_step_def planResolved_def single_flight_def offered_def Let_def
        split: list.splits)
qed (use assms in \<open>simp_all add: app_step_def handleRouteSelect_def single_flight_def
      split: list.splits\<close>)

lemma run_single_flight:
  "single_flight st \<Longrightarrow> ui_trace ns evs st \<Longrightarrow> single_flight (app_run ns evs st)"
proof (induction evs arbitrary: st)
  case Nil
  then show ?case by simp
next
  case (Cons ev evs)
  then show ?case using step_single_flight [of st ev ns] by simp
qed

lemma single_flight_length: "single_flight st \<Longrightarrow> length (inflight st) \<le> 1"
  by (simp add: single_flight_def split: list.splits)

lemma app_init_selection_valid: "selection_valid app_init"
  by (simp add: app_init_def selection_valid_def)

lemma app_init_single_flight: "single_flight app_init"
  by (simp add: app_init_def single_flight_def)

lemma readyApp_eq:
  "readyApp = app_init\<lparr>startLocation := Some startPoint, endLocation := Some endPoint\<rparr>"
  by (simp add: readyApp_def app_step_def)

lemma loadingApp_inflight: "length (inflight loadingApp) = 1"
  by (simp add: loadingApp_def readyApp_eq app_step_def handlePlanRoute_def app_init_def Let_def)

section \<open>App: selection, failure and overlapping requests\<close>

text \<open>
  C6. When a plan request answers with a response, \<open>routeData\<close> is that response and
  \<open>selectedRoute\<close> its \<open>recommended_route\<close> (null when it has none); a click on a route
  makes it the \<open>selectedRoute\<close>. In both cases the selection stays as it is through
  every later event that is neither the answer of a plan request nor another click on a
  route.
\<close>

theorem selection_follows_plan_and_click:
  assumes "i < length (inflight st)" and "list_all (\<lambda>ev. \<not> changes_selection ev) evs"
  shows "routeData (app_step ns (PlanAnswer i (Inr resp)) st) = Some resp \<and>
         selectedRoute (app_step ns (PlanAnswer i (Inr resp)) st) = recommended_route resp \<and>
         selectedRoute (app_run ns evs (app_step ns (PlanAnswer i (Inr resp)) st))
           = recommended_route resp \<and>
         selectedRoute (app_step ns (SelectRoute route) st) = Some route \<and>
         selectedRoute (app_run ns evs (app_step ns (SelectRoute route) st)) = Some route"
proof -
  have a: "routeData (app_step ns (PlanAnswer i (Inr resp)) st) = Some resp \<and>
         selectedRoute (app_step ns (PlanAnswer i (Inr resp)) st) = recommended_route resp"
    using assms(1) by (simp add: app_step_def planResolved_def Let_def)
  have b: "selectedRoute (app_step ns (SelectRoute route) st) = Some route"
    by (simp add: app_step_def handleRouteSelect_def)
  from a b run_keeps_selection [OF assms(2)] show ?thesis by simp
qed

text \<open>Witness for C6: a response with three options, then a click on the third,
  followed by a change of modes, a new plan request and a cleared start.\<close>

theorem selection_follows_plan_and_click_witness:
  "0 < length (inflight loadingApp) \<and>
   list_all (\<lambda>ev. \<not> changes_selection ev)
     [SetModes [''foot-walking''], ClickPlan, SetStart None :: (unit, unit) app_event] \<and>
   selectedRoute (app_step showDecimal (PlanAnswer 0 (Inr threeResponse)) loadingApp)
     = recommended_route threeResponse \<and>
   selectedRoute (app_run showDecimal [SetModes [''foot-walking''], ClickPlan, SetStart None]
      (app_step showDecimal (SelectRoute drivingRoute) loadingApp)) = Some drivingRoute"
proof -
  have h1: "0 < length (inflight loadingApp)" by (simp add: loadingApp_inflight)
  have h2: "list_all (\<lambda>ev. \<not> changes_selection ev)
      [SetModes [''foot-walking''], ClickPlan, SetStart None :: (unit, unit) app_event]"
    by (simp add: changes_selection_def)
  from selection_follows_plan_and_click [OF h1 h2, of showDecimal threeResponse drivingRoute] h1 h2
  show ?thesis by simp
qed

text \<open>
  C2 as stated fails. Counterexample: the current response holds the cycling route
  alone; \<open>handleRouteSelect\<close> with the driving route makes it the selected route.
\<close>

theorem select_foreign_route_changes_selection:
  "routeData plannedCycling = Some cyclingResponse \<and>
   selectedRoute plannedCycling = Some cyclingRoute \<and>
   mode drivingRoute \<notin> set (map mode (route_options cyclingResponse)) \<and>
   selectedRoute (handleRouteSelect drivingRoute plannedCycling) = Some drivingRoute \<and>
   routeData (handleRouteSelect drivingRoute plannedCycling) = Some cyclingResponse \<and>
   \<not> selection_valid (handleRouteSelect drivingRoute plannedCycling)"
  by code_simp

text \<open>
  C2, amended. In every state reached from the start through the page (the route buttons
  are rendered from the current \<open>route_options\<close>), with responses that recommend one of
  their own options or nothing, a non-null \<open>selectedRoute\<close> is one of the current
  \<open>routeData.route_options\<close>. \<open>handleRouteSelect\<close> itself tests nothing: it makes the
  route it is given the selected one and leaves \<open>routeData\<close> as it is.
\<close>

theorem selection_valid_on_ui_traces:
  assumes "ui_trace ns evs app_init" and "list_all answer_ok evs"
  shows "selection_valid (app_run ns evs app_init) \<and>
         selectedRoute (handleRouteSelect route st) = Some route \<and>
         routeData (handleRouteSelect route st) = routeData st"
  using run_selection_valid [OF app_init_selection_valid assms]
  by (simp add: handleRouteSelect_def)

text \<open>Witness for the amended C2: a plan with three options and a click on the third.\<close>

theorem selection_valid_on_ui_traces_witness:
  "ui_trace showDecimal [SetStart (Some startPoint), SetEnd (Some endPoint), ClickPlan,
      PlanAnswer 0 (Inr threeResponse), SelectRoute drivingRoute] app_init \<and>
   list_all answer_ok [SetStart (Some startPoint), SetEnd (Some endPoint), ClickPlan,
      PlanAnswer 0 (Inr threeResponse), SelectRoute drivingRoute] \<and>
   selection_valid (app_run showDecimal [SetStart (Some startPoint), SetEnd (Some endPoint), ClickPlan,
      PlanAnswer 0 (Inr threeResponse), SelectRoute drivingRoute] app_init)"
proof -
  have h1: "ui_trace showDecimal [SetStart (Some startPoint), SetEnd (Some endPoint), ClickPlan,
      PlanAnswer 0 (Inr threeResponse), SelectRoute drivingRoute] app_init"
    by code_simp
  have h2: "list_all answer_ok [SetStart (Some startPoint), SetEnd (Some endPoint), ClickPlan,
      PlanAnswer 0 (Inr threeResponse), SelectRoute drivingRoute]"
    by code_simp
  from selection_valid_on_ui_traces [OF h1 h2] h1 h2 show ?thesis by blast
qed

text \<open>
  C3 as stated fails. Counterexample: the backend answers with the body
  \<open>{"detail": ""}\<close>; the detail is present, and the message is the fallback.
\<close>

theorem empty_detail_gives_fallback:
  "emptyDetailError = \<lparr>response = Some \<lparr>data = Some \<lparr>detail = Some []\<rparr>\<rparr>\<rparr> \<and>
   inflight loadingApp \<noteq> [] \<and>
   error (app_step showDecimal (PlanAnswer 0 (Inl emptyDetailError)) loadingApp)
     = Some ''Failed to plan route. Please try again.''"
  by code_simp

text \<open>
  C3, amended. When a plan request fails, the message is \<open>err.response.data.detail\<close> if
  that is present and not empty, else the fallback; \<open>routeData\<close> and \<open>selectedRoute\<close>
  become null and \<open>isLoading\<close> false.
\<close>

theorem plan_failure_clears_state:
  assumes "i < length (inflight st)"
  shows "error (app_step ns (PlanAnswer i (Inl err)) st) = Some (errorMessage err) \<and>
         routeData (app_step ns (PlanAnswer i (Inl err)) st) = None \<and>
         selectedRoute (app_step ns (PlanAnswer i (Inl err)) st) = None \<and>
         \<not> isLoading (app_step ns (PlanAnswer i (Inl err)) st) \<and>
         (\<forall>r b d. response err = Some r \<and> data r = Some b \<and> detail b = Some d \<and> d \<noteq> []
            \<longrightarrow> errorMessage err = d) \<and>
         ((\<forall>r b d. response err = Some r \<and> data r = Some b \<and> detail b = Some d \<longrightarrow> d = [])
            \<longrightarrow> errorMessage err = ''Failed to plan route. Please try again.'')"
proof -
  have a: "error (app_step ns (PlanAnswer i (Inl err)) st) = Some (errorMessage err) \<and>
         routeData (app_step ns (PlanAnswer i (Inl err)) st) = None \<and>
         selectedRoute (app_step ns (PlanAnswer i (Inl err)) st) = None \<and>
         \<not> isLoading (app_step ns (PlanAnswer i (Inl err)) st)"
    using assms by (simp add: app_step_def planResolved_def Let_def)
  have b: "\<forall>r b d. response err = Some r \<and> data r = Some b \<and> detail b = Some d \<and> d \<noteq> []
            \<longrightarrow> errorMessage err = d"
    by (simp add: errorMessage_def)
  have c: "(\<forall>r b d. response err = Some r \<and> data r = Some b \<and> detail b = Some d \<longrightarrow> d = [])
            \<longrightarrow> errorMessage err = ''Failed to plan route. Please try again.''"
    by (auto simp: errorMessage_def split: option.splits)
  from a b c show ?thesis by blast
qed

text \<open>Witness for the amended C3: the body \<open>{"detail": "no route found"}\<close>.\<close>

theorem plan_failure_clears_state_witness:
  "0 < length (inflight loadingApp) \<and>
   error (app_step showDecimal (PlanAnswer 0 (Inl noRouteError)) loadingApp) = Some ''no route found'' \<and>
   routeData (app_step showDecimal (PlanAnswer 0 (Inl noRouteError)) loadingApp) = None \<and>
   selectedRoute (app_step showDecimal (PlanAnswer 0 (Inl noRouteError)) loadingApp) = None"
proof -
  have h: "0 < length (inflight loadingApp)" by (simp add: loadingApp_inflight)
  have m: "errorMessage noRouteError = ''no route found''"
    by (simp add: errorMessage_def noRouteError_def)
  from plan_failure_clears_state [OF h, of showDecimal noRouteError] h m
  show ?thesis by simp
qed

text \<open>
  C4 as stated fails. Counterexample: \<open>handlePlanRoute\<close> is called for cycling and,
  before its answer, again for driving; the answer of the second call arrives and is
  shown; the answer of the first call arrives next and replaces it.
\<close>

theorem superseded_plan_answer_applied:
  "map req_modes (inflight overlappingCalls) = [''cycling-regular'', ''driving-car''] \<and>
   routeData (planResolved 1 (Inr drivingResponse) overlappingCalls) = Some drivingResponse \<and>
   routeData (planResolved 0 (Inr cyclingResponse)
      (planResolved 1 (Inr drivingResponse) overlappingCalls)) = Some cyclingResponse \<and>
   selectedRoute (planResolved 0 (Inr cyclingResponse)
      (planResolved 1 (Inr drivingResponse) overlappingCalls)) = Some cyclingRoute"
  by code_simp

text \<open>
  C4, amended. Through the page no plan request is superseded: the plan button is
  disabled while \<open>isLoading\<close> and the retry button is shown only with an error, so at
  most one request is in flight in every state reached from the start.
  \<open>handlePlanRoute\<close> itself keeps no order of its calls: the response of any call in flight
  becomes \<open>routeData\<close>, and its recommended route the selection, when it arrives.
\<close>

theorem plan_calls_do_not_overlap_in_ui:
  assumes "ui_trace ns evs app_init" and "i < length (inflight st)"
  shows "length (inflight (app_run ns evs app_init)) \<le> 1 \<and>
         routeData (planResolved i (Inr resp) st) = Some resp \<and>
         selectedRoute (planResolved i (Inr resp) st) = recommended_route resp"
proof -
  have "single_flight (app_run ns evs app_init)"
    using app_init_single_flight assms(1) by (rule run_single_flight)
  then have "length (inflight (app_run ns evs app_init)) \<le> 1"
    by (rule single_flight_length)
  then show ?thesis using assms(2) by (simp add: planResolved_def Let_def)
qed

text \<open>Witness for the amended C4: while the request is loading the page does not
  offer the plan button; two direct calls do overlap.\<close>

theorem plan_calls_do_not_overlap_in_ui_witness:
  "ui_trace showDecimal [SetStart (Some startPoint), SetEnd (Some endPoint), ClickPlan,
      SetModes [''driving-car'']] (app_init :: (unit, unit) app_state) \<and>
   \<not> offered ClickPlan loadingApp \<and>
   1 < length (inflight overlappingCalls) \<and>
   length (inflight (app_run showDecimal [SetStart (Some startPoint), SetEnd (Some endPoint), ClickPlan,
      SetModes [''driving-car'']] (app_init :: (unit, unit) app_state))) \<le> 1 \<and>
   routeData (planResolved 1 (Inr drivingResponse) overlappingCalls) = Some drivingResponse"
proof -
  have h1: "ui_trace showDecimal [SetStart (Some startPoint), SetEnd (Some endPoint), ClickPlan,
      SetModes [''driving-car'']] (app_init :: (unit, unit) app_state)"
    by code_simp
  have n: "\<not> offered ClickPlan loadingApp" by code_simp
  have h2: "1 < length (inflight overlappingCalls)" by code_simp
  from plan_calls_do_not_overlap_in_ui [OF h1 h2, of drivingResponse] h1 h2 n
  show ?thesis by blast
qed

end
